theory Spec2Isabelle
  imports Main
begin

section \<open>Python values and exceptions used by \<open>apps/ems.py\<close>\<close>

text \<open>
  The callbacks of class \<open>EMS\<close> take \<open>*args\<close>: a tuple of positional arguments of any
  type. The values that occur are \<open>None\<close>, strings (item ids), tuples or lists of
  values (parent chains, query results, tree selections) and dictionaries with string
  keys (item records).
\<close>

datatype pyval =
    PyNone
  | PyStr string
  | PyTuple "pyval list"
  | PyDict "(string \<times> pyval) list"

datatype error =
    ValueError
  | TypeError
  | KeyError
  | AttributeError
  | UnboundLocalError
  | Failure string

text \<open>
  \<open>x, *_ = v\<close>: the first element of an iterable; \<open>ValueError\<close> when it is empty,
  \<open>TypeError\<close> when \<open>v\<close> is not iterable. Iterating a string yields its characters,
  iterating a dictionary its keys.
\<close>

fun py_first :: "pyval \<Rightarrow> error + pyval" where
  "py_first PyNone = Inl TypeError"
| "py_first (PyStr []) = Inl ValueError"
| "py_first (PyStr (ch # _)) = Inr (PyStr [ch])"
| "py_first (PyTuple []) = Inl ValueError"
| "py_first (PyTuple (x # _)) = Inr x"
| "py_first (PyDict []) = Inl ValueError"
| "py_first (PyDict ((k, _) # _)) = Inr (PyStr k)"

text \<open>\<open>len(v)\<close>: \<open>TypeError\<close> on \<open>None\<close>.\<close>

fun py_len :: "pyval \<Rightarrow> error + nat" where
  "py_len PyNone = Inl TypeError"
| "py_len (PyStr s) = Inr (length s)"
| "py_len (PyTuple xs) = Inr (length xs)"
| "py_len (PyDict kvs) = Inr (length kvs)"

text \<open>
  \<open>v[key]\<close> with a string key: \<open>KeyError\<close> when a dictionary lacks the key,
  \<open>TypeError\<close> on every other kind of value.
\<close>

fun py_getitem :: "pyval \<Rightarrow> string \<Rightarrow> error + pyval" where
  "py_getitem (PyDict kvs) key = (case map_of kvs key of None \<Rightarrow> Inl KeyError | Some v \<Rightarrow> Inr v)"
| "py_getitem _ key = Inl TypeError"

section \<open>The state of an \<open>EMS\<close> object and the calls it makes\<close>

text \<open>
  \<open>EMS\<close> owns a database object (\<open>self.db\<close>, given to the constructor) and, once
  \<open>prepare\<close> has run, a container manager (\<open>self.cm\<close>, the two trees) and a data entry
  pane (\<open>self.de\<close>). Before \<open>prepare\<close> the attributes \<open>cm\<close> and \<open>de\<close> do not exist and
  reading them raises \<open>AttributeError\<close>. The Python name \<open>id\<close> is written \<open>ident\<close>
  below. The field \<open>trace\<close> is not part of the program:
  it records, in order, every call the callbacks make on their collaborators, so that
  statements about what is called, and in which order, can be made.
\<close>

datatype call =
    ItemsQuery string "string list"
  | ItemGet pyval "string list"
  | ContainerAdd pyval pyval
  | NewContainerManager pyval pyval
  | NewDataEntry
  | BaseGet
  | BaseSet pyval
  | Refresh
  | Highlight pyval
  | Open
  | Selections
  | TreeParent pyval
  | TreeRebase pyval
  | DeShow pyval

record ('s, 'v, 'e) ems =
  db :: 's
  cm :: "'v option"
  de :: "'e option"
  trace :: "call list"

text \<open>
  The modules \<open>mods.database\<close> and \<open>mods.widgets\<close> are collaborators of \<open>apps/ems.py\<close>.
  The callbacks are written against their methods, which are parameters here. A
  database method acts on the database state \<open>'s\<close> only; a method of the container
  manager reads the database and acts on the trees \<open>'v\<close>; the data entry pane acts on
  its own state \<open>'e\<close>. Every method may raise, and a method that changes state returns
  the state it leaves behind also when it raises.
\<close>

record ('s, 'v, 'e) collab =
  db_items_query :: "string \<Rightarrow> string list \<Rightarrow> 's \<Rightarrow> error + pyval"
  db_item_get :: "pyval \<Rightarrow> string list \<Rightarrow> 's \<Rightarrow> error + pyval"
  db_container_add :: "pyval \<Rightarrow> pyval \<Rightarrow> 's \<Rightarrow> (error + pyval) \<times> 's"
  new_container_manager :: "pyval \<Rightarrow> pyval \<Rightarrow> 's \<Rightarrow> error + 'v"
  new_data_entry :: "'s \<Rightarrow> error + 'e"
  cm_base :: "'v \<Rightarrow> error + pyval"
  cm_set_base :: "pyval \<Rightarrow> 's \<Rightarrow> 'v \<Rightarrow> (error + unit) \<times> 'v"
  cm_refresh :: "'s \<Rightarrow> 'v \<Rightarrow> (error + unit) \<times> 'v"
  cm_highlight :: "pyval \<Rightarrow> 's \<Rightarrow> 'v \<Rightarrow> (error + unit) \<times> 'v"
  cm_open :: "'s \<Rightarrow> 'v \<Rightarrow> (error + unit) \<times> 'v"
  cm_selections :: "'v \<Rightarrow> error + pyval"
  tree_parent :: "pyval \<Rightarrow> 'v \<Rightarrow> error + pyval"
  tree_rebase :: "pyval \<Rightarrow> 's \<Rightarrow> 'v \<Rightarrow> (error + unit) \<times> 'v"
  de_show :: "pyval \<Rightarrow> 'e \<Rightarrow> (error + unit) \<times> 'e"

subsection \<open>Statements: state passing with exceptions\<close>

type_synonym ('w, 'a) stmt = "'w \<Rightarrow> (error + 'a) \<times> 'w"

definition done_with :: "'a \<Rightarrow> ('w, 'a) stmt" where
  "done_with a = (\<lambda>w. (Inr a, w))"

definition raise :: "error \<Rightarrow> ('w, 'a) stmt" where
  "raise e = (\<lambda>w. (Inl e, w))"

definition and_then :: "('w, 'a) stmt \<Rightarrow> ('a \<Rightarrow> ('w, 'b) stmt) \<Rightarrow> ('w, 'b) stmt" where
  "and_then m f = (\<lambda>w. case m w of (Inl e, w') \<Rightarrow> (Inl e, w') | (Inr a, w') \<Rightarrow> f a w')"

definition pure_of :: "error + 'a \<Rightarrow> ('w, 'a) stmt" where
  "pure_of r = (\<lambda>w. (r, w))"

definition logged :: "call \<Rightarrow> ('s, 'v, 'e) ems \<Rightarrow> ('s, 'v, 'e) ems" where
  "logged ev w = w\<lparr>trace := trace w @ [ev]\<rparr>"

definition db_read :: "call \<Rightarrow> ('s \<Rightarrow> error + 'a) \<Rightarrow> (('s, 'v, 'e) ems, 'a) stmt" where
  "db_read ev f = (\<lambda>w. (f (db w), logged ev w))"

definition db_write :: "call \<Rightarrow> ('s \<Rightarrow> (error + 'a) \<times> 's) \<Rightarrow> (('s, 'v, 'e) ems, 'a) stmt" where
  "db_write ev f = (\<lambda>w. case f (db w) of (r, s') \<Rightarrow> (r, logged ev (w\<lparr>db := s'\<rparr>)))"

definition cm_read :: "call \<Rightarrow> ('v \<Rightarrow> error + 'a) \<Rightarrow> (('s, 'v, 'e) ems, 'a) stmt" where
  "cm_read ev f = (\<lambda>w. case cm w of
       None \<Rightarrow> (Inl AttributeError, w)
     | Some v \<Rightarrow> (f v, logged ev w))"

definition cm_do :: "call \<Rightarrow> ('s \<Rightarrow> 'v \<Rightarrow> (error + 'a) \<times> 'v) \<Rightarrow> (('s, 'v, 'e) ems, 'a) stmt" where
  "cm_do ev f = (\<lambda>w. case cm w of
       None \<Rightarrow> (Inl AttributeError, w)
     | Some v \<Rightarrow> (case f (db w) v of (r, v') \<Rightarrow> (r, logged ev (w\<lparr>cm := Some v'\<rparr>))))"

definition de_do :: "call \<Rightarrow> ('e \<Rightarrow> (error + 'a) \<times> 'e) \<Rightarrow> (('s, 'v, 'e) ems, 'a) stmt" where
  "de_do ev f = (\<lambda>w. case de w of
       None \<Rightarrow> (Inl AttributeError, w)
     | Some e \<Rightarrow> (case f e of (r, e') \<Rightarrow> (r, logged ev (w\<lparr>de := Some e'\<rparr>))))"

section \<open>The methods of class \<open>EMS\<close>\<close>

definition base_fields :: "string list" where
  "base_fields = [''_id'', ''Display Name'']"

text \<open>
  \<open>EMS.prepare\<close>. The refresh button, the status bar and the grid configuration that
  follow the two constructors are window layout and are left out.
\<close>

definition EMS_prepare :: "('s, 'v, 'e) collab \<Rightarrow> (('s, 'v, 'e) ems, unit) stmt" where
  "EMS_prepare c =
     and_then (db_read (ItemsQuery ''Evacuation'' base_fields)
                 (db_items_query c ''Evacuation'' base_fields)) (\<lambda>res.
     and_then (pure_of (py_first res)) (\<lambda>base.
     and_then (\<lambda>w. case new_container_manager c base base (db w) of
                   Inl e \<Rightarrow> (Inl e, logged (NewContainerManager base base) w)
                 | Inr v \<Rightarrow> (Inr (), logged (NewContainerManager base base) (w\<lparr>cm := Some v\<rparr>))) (\<lambda>_.
     (\<lambda>w. case new_data_entry c (db w) of
                   Inl e \<Rightarrow> (Inl e, logged NewDataEntry w)
                 | Inr p \<Rightarrow> (Inr (), logged NewDataEntry (w\<lparr>de := Some p\<rparr>))))))"

text \<open>\<open>EMS.newchild(target)\<close>.\<close>

definition EMS_newchild :: "('s, 'v, 'e) collab \<Rightarrow> pyval \<Rightarrow> (('s, 'v, 'e) ems, unit) stmt" where
  "EMS_newchild c target =
     and_then (cm_read (TreeParent target) (tree_parent c target)) (\<lambda>parent.
     and_then (if parent = PyStr []
               then and_then (cm_do (TreeRebase target) (tree_rebase c target)) (\<lambda>_.
                    cm_read (TreeParent target) (tree_parent c target))
               else done_with parent) (\<lambda>parent.
     cm_do (Highlight parent) (cm_highlight c parent)))"

text \<open>\<open>EMS.refresh()\<close>.\<close>

definition EMS_refresh :: "('s, 'v, 'e) collab \<Rightarrow> (('s, 'v, 'e) ems, unit) stmt" where
  "EMS_refresh c = cm_do Refresh (cm_refresh c)"

text \<open>\<open>EMS.item_select(*args)\<close>: \<open>doc, = args\<close> needs exactly one argument.\<close>

definition EMS_item_select :: "('s, 'v, 'e) collab \<Rightarrow> pyval list \<Rightarrow> (('s, 'v, 'e) ems, unit) stmt" where
  "EMS_item_select c args =
     (case args of
        [doc] \<Rightarrow> de_do (DeShow doc) (de_show c doc)
      | _ \<Rightarrow> raise ValueError)"

text \<open>\<open>EMS.delete(*args)\<close>: \<open>id, parents, *_ = args\<close> needs at least two arguments.\<close>

definition EMS_delete :: "('s, 'v, 'e) collab \<Rightarrow> pyval list \<Rightarrow> (('s, 'v, 'e) ems, unit) stmt" where
  "EMS_delete c args =
     (case args of
        ident # parents # _ \<Rightarrow>
          and_then (pure_of (py_len parents)) (\<lambda>n.
          if n > 0 then
            and_then (pure_of (py_first parents)) (\<lambda>parent.
            and_then (cm_read BaseGet (cm_base c)) (\<lambda>b.
            and_then (pure_of (py_getitem b ''_id'')) (\<lambda>bid.
            and_then (if ident = bid
                      then and_then (db_read (ItemGet parent base_fields)
                                       (db_item_get c parent base_fields)) (\<lambda>newbase.
                           cm_do (BaseSet newbase) (cm_set_base c newbase))
                      else done_with ()) (\<lambda>_.
            and_then (cm_do Refresh (cm_refresh c)) (\<lambda>_.
            and_then (cm_do (Highlight parent) (cm_highlight c parent)) (\<lambda>_.
            cm_do Open (cm_open c)))))))
          else cm_do Refresh (cm_refresh c))
      | _ \<Rightarrow> raise ValueError)"

text \<open>
  \<open>EMS.save(*args)\<close>. The local \<open>container\<close> is bound only in the first \<open>if\<close>; reading
  an unbound local raises \<open>UnboundLocalError\<close>.
\<close>

definition EMS_save :: "('s, 'v, 'e) collab \<Rightarrow> pyval list \<Rightarrow> (('s, 'v, 'e) ems, unit) stmt" where
  "EMS_save c args =
     (case args of
        [] \<Rightarrow> raise ValueError
      | ident # _ \<Rightarrow>
          and_then (if ident \<noteq> PyNone
                    then and_then (cm_read Selections (cm_selections c)) (\<lambda>sel.
                         and_then (pure_of (py_first sel)) (\<lambda>container.
                         and_then (db_write (ContainerAdd container ident)
                                     (db_container_add c container ident)) (\<lambda>_.
                         done_with (Some container))))
                    else done_with None) (\<lambda>container.
          and_then (cm_do Refresh (cm_refresh c)) (\<lambda>_.
          if ident \<noteq> PyNone
          then (case container of
                  None \<Rightarrow> raise UnboundLocalError
                | Some k \<Rightarrow>
                    and_then (cm_do (Highlight k) (cm_highlight c k)) (\<lambda>_.
                    cm_do Open (cm_open c)))
          else done_with ())))"

text \<open>\<open>EMS.show(*args)\<close>.\<close>

definition EMS_show :: "('s, 'v, 'e) collab \<Rightarrow> pyval list \<Rightarrow> (('s, 'v, 'e) ems, unit) stmt" where
  "EMS_show c args =
     (case args of
        [] \<Rightarrow> raise ValueError
      | ident # _ \<Rightarrow>
          if ident \<noteq> PyNone
          then and_then (cm_do Refresh (cm_refresh c)) (\<lambda>_.
               cm_do (Highlight ident) (cm_highlight c ident))
          else done_with ())"

section \<open>The collaborators, modelled from the specification\<close>

text \<open>
  \<open>apps/ems.py\<close> imports \<open>mods.database\<close> and \<open>mods.widgets\<close> and holds none of their
  code. What the store and the trees look like after a callback depends on what their
  methods do, so a model of them is given here, written from sections 3, 4.1, 6 and 7 of
  the specification. Every definition of this section is such a model.
\<close>

subsection \<open>Hierarchy Store Adapter\<close>

text \<open>
  Modelled from the spec: an item (section 3) is a persisted entity with a unique
  identifier, a category tag and a set of named fields, among them a display name.
\<close>

record item =
  item_id :: string
  item_cat :: string
  item_fields :: "(string \<times> pyval) list"

text \<open>
  Modelled from the spec: the store (section 3) holds the items and the container edges,
  a directed relation from the id of a container to the id of a contained item.
\<close>

record store =
  items :: "item list"
  edges :: "(string \<times> string) list"

text \<open>
  Modelled from the spec: a record is the dictionary of the requested fields of an item;
  the field \<open>_id\<close> holds the identifier.
\<close>

definition record_of :: "string list \<Rightarrow> item \<Rightarrow> pyval" where
  "record_of fs it =
     PyDict (filter (\<lambda>kv. fst kv \<in> set fs) ((''_id'', PyStr (item_id it)) # item_fields it))"

text \<open>Modelled from the spec: \<open>queryItems(category, fields) -> sequence of records\<close> (section 6).\<close>

definition queryItems :: "string \<Rightarrow> string list \<Rightarrow> store \<Rightarrow> error + pyval" where
  "queryItems cat fs s =
     Inr (PyTuple (map (record_of fs) (filter (\<lambda>it. item_cat it = cat) (items s))))"

text \<open>
  Modelled from the spec: \<open>getItem(id, fields) -> record | not-found\<close> (section 6); the
  outcome not-found is an exception.
\<close>

definition getItem :: "pyval \<Rightarrow> string list \<Rightarrow> store \<Rightarrow> error + pyval" where
  "getItem i fs s =
     (case find (\<lambda>it. PyStr (item_id it) = i) (items s) of
        None \<Rightarrow> Inl (Failure ''not-found'')
      | Some it \<Rightarrow> Inr (record_of fs it))"

text \<open>Modelled from the spec: \<open>getParent(id) -> parent_id | none\<close> (section 6).\<close>

definition getParent :: "store \<Rightarrow> pyval \<Rightarrow> string option" where
  "getParent s i = map_option fst (find (\<lambda>e. PyStr (snd e) = i) (edges s))"

text \<open>
  Modelled from the spec: the items a container holds, by the container edges that start
  at it (section 3).
\<close>

definition children_of :: "(string \<times> string) list \<Rightarrow> string \<Rightarrow> string list" where
  "children_of es x = map snd (filter (\<lambda>e. fst e = x) es)"

text \<open>
  Modelled from the spec: the nodes below an item, found by following container edges
  downward (section 3, Base/Root), each paired with the node it hangs under. The walk is
  cut after \<open>n\<close> levels, so that it ends on a store whose edges form a cycle.
\<close>

fun subtree :: "nat \<Rightarrow> (string \<times> string) list \<Rightarrow> string \<Rightarrow> string \<Rightarrow> (string \<times> string) list" where
  "subtree 0 es x p = []"
| "subtree (Suc n) es x p = (x, p) # concat (map (\<lambda>ch. subtree n es ch x) (children_of es x))"

text \<open>
  Modelled from the spec: the items reachable from \<open>r\<close> by following container edges
  downward, \<open>r\<close> included (section 3, Base/Root). A path that uses no edge twice has at
  most as many steps as the store has edges.
\<close>

definition reachable :: "store \<Rightarrow> string \<Rightarrow> string list" where
  "reachable s r = map fst (subtree (Suc (length (edges s))) (edges s) r [])"

text \<open>
  Modelled from the spec: \<open>addContainerEdge(container_id, item_id) -> success |
  failure(reason)\<close> (section 6). The store rejects an edge that would create a cycle or
  violate the single-parent invariant (section 7, mutation failure); a rejected edge is
  an exception and leaves the store as it was.
\<close>

definition addContainerEdge :: "pyval \<Rightarrow> pyval \<Rightarrow> store \<Rightarrow> (error + pyval) \<times> store" where
  "addContainerEdge container i s =
     (case (container, i) of
        (PyStr k, PyStr x) \<Rightarrow>
          if getParent s i \<noteq> None then (Inl (Failure ''single-parent''), s)
          else if k \<in> set (reachable s x) then (Inl (Failure ''cycle''), s)
          else (Inr PyNone, s\<lparr>edges := edges s @ [(k, x)]\<rparr>)
      | _ \<Rightarrow> (Inl (Failure ''not an item id''), s))"

subsection \<open>Tree Navigation Engine\<close>

text \<open>
  Modelled from the spec: a tree node (section 3) is the projection of an item id in one
  of the two tree views, with a display label and its parent in the view; the parent of a
  root-level node is the empty string, the "no parent in view" sentinel that
  \<open>EMS.newchild\<close> tests for.
\<close>

record node =
  node_id :: string
  node_parent :: string
  node_label :: string

text \<open>
  Modelled from the spec: a tree view has a root record (the Base, section 3), the
  displayed nodes, the open nodes and the selection.
\<close>

record tree =
  root :: pyval
  nodes :: "node list"
  opened :: "string list"
  selection :: "string list"

text \<open>
  Modelled from the spec: the engine (section 2) owns an upper and a lower tree view;
  \<open>home\<close> is the last known-good Base, the singleton root of the base category
  (section 4.1, failure semantics).
\<close>

record view =
  top :: tree
  bottom :: tree
  home :: pyval

text \<open>
  Modelled from the spec: the Base designates an item id (section 3); it is the field
  \<open>_id\<close> of the root record, as in \<open>cm.base()["_id"]\<close> of \<open>EMS.delete\<close>.
\<close>

definition root_id :: "pyval \<Rightarrow> string option" where
  "root_id r = (case py_getitem r ''_id'' of Inr (PyStr x) \<Rightarrow> Some x | _ \<Rightarrow> None)"

text \<open>
  Modelled from the spec: whether the store still has the item a root record designates;
  when it has not, the reference is stale (section 7).
\<close>

definition in_store :: "store \<Rightarrow> pyval \<Rightarrow> bool" where
  "in_store s r = (case root_id r of None \<Rightarrow> False | Some x \<Rightarrow> x \<in> set (map item_id (items s)))"

text \<open>Modelled from the spec: the display label of a node is the display name of its item (section 3).\<close>

definition label_of :: "store \<Rightarrow> string \<Rightarrow> string" where
  "label_of s x =
     (case find (\<lambda>it. item_id it = x) (items s) of
        None \<Rightarrow> []
      | Some it \<Rightarrow> (case map_of (item_fields it) ''Display Name'' of Some (PyStr l) \<Rightarrow> l | _ \<Rightarrow> []))"

text \<open>
  Modelled from the spec: the displayed nodes are rebuilt wholesale from the store,
  starting at the root (section 3, lifecycle).
\<close>

definition display :: "store \<Rightarrow> string \<Rightarrow> node list" where
  "display s r =
     map (\<lambda>xp. \<lparr>node_id = fst xp, node_parent = snd xp, node_label = label_of s (fst xp)\<rparr>)
         (subtree (Suc (length (edges s))) (edges s) r [])"

text \<open>
  Modelled from the spec: a rebuild keeps the identifiers of the open nodes where they
  still exist and collapses the others (section 4.1, \<open>refresh\<close>); the selection stays a
  subset of the displayed nodes (section 3).
\<close>

definition rebuild :: "store \<Rightarrow> tree \<Rightarrow> tree" where
  "rebuild s t =
     (let ns = (case root_id (root t) of None \<Rightarrow> [] | Some r \<Rightarrow> display s r);
          shown = map node_id ns
      in t\<lparr>nodes := ns,
           opened := filter (\<lambda>x. x \<in> set shown) (opened t),
           selection := filter (\<lambda>x. x \<in> set shown) (selection t)\<rparr>)"

text \<open>
  Modelled from the spec: when the root no longer exists in the store (stale reference,
  sections 4.1 and 7) the engine falls back to the last known-good Base and rebuilds; the
  condition is not raised, and the selection is cleared.
\<close>

definition refresh_tree :: "store \<Rightarrow> pyval \<Rightarrow> tree \<Rightarrow> tree" where
  "refresh_tree s h t =
     (if in_store s (root t) then rebuild s t
      else (rebuild s (t\<lparr>root := h\<rparr>))\<lparr>selection := []\<rparr>)"

text \<open>
  Modelled from the spec: \<open>refresh()\<close> re-queries the store for the subtree rooted at the
  current Base and rebuilds both views (section 4.1).
\<close>

definition refresh :: "store \<Rightarrow> view \<Rightarrow> (error + unit) \<times> view" where
  "refresh s v =
     (Inr (), v\<lparr>top := refresh_tree s (home v) (top v),
                bottom := refresh_tree s (home v) (bottom v)\<rparr>)"

text \<open>Modelled from the spec: a tree view with a root and nothing displayed yet.\<close>

definition fresh_tree :: "pyval \<Rightarrow> tree" where
  "fresh_tree r = \<lparr>root = r, nodes = [], opened = [], selection = []\<rparr>"

text \<open>
  Modelled from the spec: \<open>setBase(node)\<close> replaces the current Base with \<open>node\<close> and
  fully rebuilds both tree views starting at \<open>node\<close>; the previous Base and all its nodes
  are discarded (section 4.1). It is what \<open>cm.base(newbase=...)\<close> does.
\<close>

definition setBase :: "pyval \<Rightarrow> store \<Rightarrow> view \<Rightarrow> (error + unit) \<times> view" where
  "setBase r s v =
     (Inr (), v\<lparr>top := refresh_tree s (home v) (fresh_tree r),
                bottom := refresh_tree s (home v) (fresh_tree r)\<rparr>)"

text \<open>Modelled from the spec: the Base is shared by both trees; \<open>cm.base()\<close> returns its record.\<close>

definition base :: "view \<Rightarrow> error + pyval" where
  "base v = Inr (root (top v))"

text \<open>
  Modelled from the spec: the ancestors of a displayed node, found by following the
  parent in the view up to a root-level node.
\<close>

fun path_up :: "nat \<Rightarrow> node list \<Rightarrow> string \<Rightarrow> string list" where
  "path_up 0 ns x = []"
| "path_up (Suc k) ns x =
     (case find (\<lambda>n. node_id n = x) ns of
        None \<Rightarrow> []
      | Some n \<Rightarrow> if node_parent n = [] then [] else node_parent n # path_up k ns (node_parent n))"

text \<open>
  Modelled from the spec: \<open>highlight(node)\<close> sets the selection to \<open>{node}\<close> in the upper
  tree and expands its ancestors; when \<open>node\<close> is not displayed under the current Base
  it is a no-op (section 4.1).
\<close>

definition highlight :: "pyval \<Rightarrow> store \<Rightarrow> view \<Rightarrow> (error + unit) \<times> view" where
  "highlight i s v =
     (case i of
        PyStr x \<Rightarrow>
          if x \<in> set (map node_id (nodes (top v)))
          then (Inr (), v\<lparr>top := (top v)\<lparr>selection := [x],
                   opened := List.union (opened (top v))
                               (path_up (length (nodes (top v))) (nodes (top v)) x)\<rparr>\<rparr>)
          else (Inr (), v)
      | _ \<Rightarrow> (Inr (), v))"

text \<open>
  Modelled from the spec: \<open>open()\<close> expands the nodes currently selected, so that their
  children are visible (section 4.1).
\<close>

definition open_selected :: "store \<Rightarrow> view \<Rightarrow> (error + unit) \<times> view" where
  "open_selected s v =
     (Inr (), v\<lparr>top := (top v)\<lparr>opened := List.union (opened (top v)) (selection (top v))\<rparr>\<rparr>)"

text \<open>Modelled from the spec: the selection (section 3) of the upper tree, as a tuple of ids.\<close>

definition selections :: "view \<Rightarrow> error + pyval" where
  "selections v = Inr (PyTuple (map PyStr (selection (top v))))"

text \<open>
  Modelled from the spec: \<open>parentOf(node)\<close> returns the in-view parent id of \<open>node\<close>, or
  the sentinel when \<open>node\<close> is displayed as a root-level node (section 4.1). The
  specification leaves open what happens for a node that is not displayed; here it is an
  exception.
\<close>

definition parentOf :: "pyval \<Rightarrow> view \<Rightarrow> error + pyval" where
  "parentOf i v =
     (case find (\<lambda>n. PyStr (node_id n) = i) (nodes (top v)) of
        None \<Rightarrow> Inl (Failure ''not displayed'')
      | Some n \<Rightarrow> Inr (PyStr (node_parent n)))"

text \<open>
  Modelled from the spec: the rebase protocol (section 4.1). The engine queries the store
  for the true parent \<open>p\<close> of \<open>target\<close> and calls \<open>setBase(p)\<close>; a target without a
  resolvable parent becomes the new root itself (section 7, unreachable target); a record
  that the store does not have is a stale reference, answered by the last known-good Base.
\<close>

definition rebase :: "pyval \<Rightarrow> store \<Rightarrow> view \<Rightarrow> (error + unit) \<times> view" where
  "rebase target s v =
     (let anchor = (case getParent s target of None \<Rightarrow> target | Some p \<Rightarrow> PyStr p)
      in case getItem anchor base_fields s of
           Inl _ \<Rightarrow> setBase (home v) s v
         | Inr r \<Rightarrow> setBase r s v)"

text \<open>
  Modelled from the spec: at application start both trees are rooted at the base record
  they are given, and the upper one is the last known-good Base (section 3, lifecycle).
\<close>

definition newContainerManager :: "pyval \<Rightarrow> pyval \<Rightarrow> store \<Rightarrow> error + view" where
  "newContainerManager topbase botbase s =
     Inr \<lparr>top = refresh_tree s topbase (fresh_tree topbase),
          bottom = refresh_tree s topbase (fresh_tree botbase),
          home = topbase\<rparr>"

subsection \<open>Edit pane\<close>

text \<open>
  Modelled from the spec: the edit pane receives a \<open>show(record)\<close> call to populate its
  fields (section 6); its state is the record it displays, \<open>None\<close> at the start.
\<close>

definition newDataEntry :: "store \<Rightarrow> error + pyval" where
  "newDataEntry s = Inr PyNone"

text \<open>Modelled from the spec: \<open>show(record)\<close> makes the record the one displayed (section 6).\<close>

definition pane_show :: "pyval \<Rightarrow> pyval \<Rightarrow> (error + unit) \<times> pyval" where
  "pane_show doc e = (Inr (), doc)"

text \<open>Modelled from the spec: the collaborators of \<open>EMS\<close>, put together.\<close>

definition spec_collab :: "(store, view, pyval) collab" where
  "spec_collab =
     \<lparr>db_items_query = queryItems,
      db_item_get = getItem,
      db_container_add = addContainerEdge,
      new_container_manager = newContainerManager,
      new_data_entry = newDataEntry,
      cm_base = base,
      cm_set_base = setBase,
      cm_refresh = refresh,
      cm_highlight = highlight,
      cm_open = open_selected,
      cm_selections = selections,
      tree_parent = parentOf,
      tree_rebase = rebase,
      de_show = pane_show\<rparr>"

section \<open>A small store and its views\<close>

text \<open>
  An evacuation \<open>ev\<close> that contains a station \<open>st\<close>, which contains a lane \<open>ln\<close>, and a
  person \<open>pn\<close> that is in no container yet. \<open>store1\<close> is the same store once the lane has
  been deleted.
\<close>

definition it_ev :: item where
  "it_ev = \<lparr>item_id = ''ev'', item_cat = ''Evacuation'',
            item_fields = [(''Display Name'', PyStr ''Evacuation'')]\<rparr>"

definition it_st :: item where
  "it_st = \<lparr>item_id = ''st'', item_cat = ''Station'',
            item_fields = [(''Display Name'', PyStr ''Station'')]\<rparr>"

definition it_ln :: item where
  "it_ln = \<lparr>item_id = ''ln'', item_cat = ''Lane'',
            item_fields = [(''Display Name'', PyStr ''Lane'')]\<rparr>"

definition it_pn :: item where
  "it_pn = \<lparr>item_id = ''pn'', item_cat = ''Person'',
            item_fields = [(''Display Name'', PyStr ''Person'')]\<rparr>"

definition store0 :: store where
  "store0 = \<lparr>items = [it_ev, it_st, it_ln, it_pn], edges = [(''ev'', ''st''), (''st'', ''ln'')]\<rparr>"

definition store1 :: store where
  "store1 = \<lparr>items = [it_ev, it_st, it_pn], edges = [(''ev'', ''st'')]\<rparr>"

text \<open>The view of store \<open>s\<close> rooted at item \<open>it\<close>, with selection \<open>sel\<close> in the upper tree.\<close>

definition view_at :: "store \<Rightarrow> item \<Rightarrow> string list \<Rightarrow> view" where
  "view_at s it sel =
     \<lparr>top = (rebuild s (fresh_tree (record_of base_fields it)))\<lparr>selection := sel\<rparr>,
      bottom = rebuild s (fresh_tree (record_of base_fields it)),
      home = record_of base_fields it_ev\<rparr>"

definition world :: "store \<Rightarrow> view \<Rightarrow> (store, view, pyval) ems" where
  "world s v = \<lparr>db = s, cm = Some v, de = Some PyNone, trace = []\<rparr>"

definition unprepared :: "store \<Rightarrow> (store, view, pyval) ems" where
  "unprepared s = \<lparr>db = s, cm = None, de = None, trace = []\<rparr>"

section \<open>What the callbacks call, and in which order\<close>

lemmas stmt_defs = done_with_def raise_def and_then_def pure_of_def logged_def
  db_read_def db_write_def cm_read_def cm_do_def de_do_def

lemmas example_defs = it_ev_def it_st_def it_ln_def it_pn_def store0_def store1_def
  view_at_def world_def unprepared_def

lemmas spec_defs = spec_collab_def record_of_def queryItems_def getItem_def getParent_def
  children_of_def reachable_def addContainerEdge_def root_id_def in_store_def label_of_def
  display_def rebuild_def refresh_tree_def refresh_def fresh_tree_def setBase_def base_def
  highlight_def open_selected_def selections_def parentOf_def rebase_def
  newContainerManager_def newDataEntry_def pane_show_def base_fields_def

text \<open>
  C1. \<open>EMS.save\<close> is the only method of \<open>EMS\<close> that calls a mutating method of the
  database (\<open>container_add\<close>). When that call raises, \<open>save\<close> ends with the same
  exception: the trace holds the read of the selection and the failed call and nothing
  after them (no refresh, no highlight, no open), and the container manager (trees, Base,
  selection) is the one from before the call. The value \<open>container_add\<close> returns is
  discarded, so a failure is an exception, not a returned value.
\<close>

theorem save_mutation_failure_aborts:
  assumes "cm w = Some v" and "cm_selections c v = Inr sel" and "py_first sel = Inr container"
    and "ident \<noteq> PyNone" and "db_container_add c container ident (db w) = (Inl e, s')"
  shows "EMS_save c (ident # rest) w =
           (Inl e, w\<lparr>db := s', trace := trace w @ [Selections, ContainerAdd container ident]\<rparr>)"
  using assms by (simp add: EMS_save_def stmt_defs)

text \<open>
  Saving the lane \<open>ln\<close>, which already is in the station, into the selected evacuation:
  the store rejects the second parent.
\<close>

theorem save_mutation_failure_aborts_witness:
  "EMS_save spec_collab [PyStr ''ln''] (world store0 (view_at store0 it_ev [''ev''])) =
     (Inl (Failure ''single-parent''),
      (world store0 (view_at store0 it_ev [''ev'']))
        \<lparr>trace := [Selections, ContainerAdd (PyStr ''ev'') (PyStr ''ln'')]\<rparr>)"
proof -
  let ?v = "view_at store0 it_ev [''ev'']"
  let ?w = "world store0 ?v"
  have h1: "cm ?w = Some ?v"
    by (simp add: world_def)
  have h2: "cm_selections spec_collab ?v = Inr (PyTuple [PyStr ''ev''])"
    by (simp add: spec_collab_def selections_def view_at_def)
  have h3: "py_first (PyTuple [PyStr ''ev'']) = Inr (PyStr ''ev'')"
    by simp
  have h4: "PyStr ''ln'' \<noteq> PyNone"
    by simp
  have h5: "db_container_add spec_collab (PyStr ''ev'') (PyStr ''ln'') (db ?w) =
              (Inl (Failure ''single-parent''), store0)"
    by (simp add: spec_collab_def addContainerEdge_def getParent_def world_def store0_def)
  have "db ?w = store0" and "trace ?w = []"
    by (simp_all add: world_def)
  then show ?thesis
    using save_mutation_failure_aborts [OF h1 h2 h3 h4 h5, of "[]"] by simp
qed

text \<open>
  C5 (as the code has it). \<open>EMS.item_select\<close> is called with one argument, the record of
  the selected item, and hands that argument to the edit pane (\<open>de.show\<close>). It makes no
  call on the database: loading the record is left to whoever calls the callback.
\<close>

theorem item_select_pushes_argument:
  assumes "de w = Some e" and "de_show c doc e = (r, e')"
  shows "EMS_item_select c [doc] w = (r, w\<lparr>de := Some e', trace := trace w @ [DeShow doc]\<rparr>)"
  using assms by (simp add: EMS_item_select_def stmt_defs)

theorem item_select_pushes_argument_witness:
  "EMS_item_select spec_collab [record_of base_fields it_ln] (world store0 (view_at store0 it_ev [])) =
     (Inr (), (world store0 (view_at store0 it_ev []))
                \<lparr>de := Some (record_of base_fields it_ln),
                 trace := [DeShow (record_of base_fields it_ln)]\<rparr>)"
proof -
  let ?w = "world store0 (view_at store0 it_ev [])"
  have h1: "de ?w = Some PyNone"
    by (simp add: world_def)
  have h2: "de_show spec_collab (record_of base_fields it_ln) PyNone =
              (Inr (), record_of base_fields it_ln)"
    by (simp add: spec_collab_def pane_show_def)
  have "trace ?w = []"
    by (simp add: world_def)
  then show ?thesis
    using item_select_pushes_argument [OF h1 h2] by simp
qed

text \<open>
  C5 (as the claim has it) fails: when the selection changes to the lane \<open>ln\<close>, the only
  call of the callback is \<open>de.show\<close>; no record is loaded through the database.
\<close>

theorem item_select_loads_nothing:
  "trace (snd (EMS_item_select spec_collab [PyStr ''ln''] (world store0 (view_at store0 it_ev []))))
     = [DeShow (PyStr ''ln'')]"
  by (simp add: EMS_item_select_def stmt_defs world_def spec_collab_def pane_show_def)

text \<open>
  C7. \<open>EMS.prepare\<close> queries the database once, for the category \<open>Evacuation\<close>, takes the
  first record of the answer as the base, and constructs the container manager with that
  one record as the base of the upper tree and as the base of the lower tree.
\<close>

theorem prepare_single_query_shared_base:
  assumes "db_items_query c ''Evacuation'' [''_id'', ''Display Name''] (db w) = Inr (PyTuple (b # others))"
    and "new_container_manager c b b (db w) = Inr v" and "new_data_entry c (db w) = Inr e"
  shows "EMS_prepare c w =
           (Inr (), w\<lparr>cm := Some v, de := Some e,
              trace := trace w @ [ItemsQuery ''Evacuation'' [''_id'', ''Display Name''],
                                  NewContainerManager b b, NewDataEntry]\<rparr>)"
  using assms by (simp add: EMS_prepare_def stmt_defs base_fields_def)

theorem prepare_single_query_shared_base_witness:
  "EMS_prepare spec_collab (unprepared store0) =
     (Inr (), \<lparr>db = store0, cm = Some (view_at store0 it_ev []), de = Some PyNone,
               trace = [ItemsQuery ''Evacuation'' [''_id'', ''Display Name''],
                        NewContainerManager (record_of base_fields it_ev) (record_of base_fields it_ev),
                        NewDataEntry]\<rparr>)
   \<and> root (top (view_at store0 it_ev [])) = record_of base_fields it_ev
   \<and> root (bottom (view_at store0 it_ev [])) = record_of base_fields it_ev"
proof -
  let ?b = "record_of base_fields it_ev"
  let ?w = "unprepared store0"
  have h1: "db_items_query spec_collab ''Evacuation'' [''_id'', ''Display Name''] (db ?w) =
              Inr (PyTuple (?b # []))"
    by (simp add: spec_collab_def queryItems_def record_of_def base_fields_def example_defs)
  have h2: "new_container_manager spec_collab ?b ?b (db ?w) = Inr (view_at store0 it_ev [])"
    by (simp add: spec_defs example_defs Let_def)
  have h3: "new_data_entry spec_collab (db ?w) = Inr PyNone"
    by (simp add: spec_collab_def newDataEntry_def)
  have "root (top (view_at store0 it_ev [])) = ?b" and "root (bottom (view_at store0 it_ev [])) = ?b"
    by (simp_all add: view_at_def rebuild_def fresh_tree_def Let_def)
  then show ?thesis
    using prepare_single_query_shared_base [OF h1 h2 h3] by (simp add: unprepared_def)
qed

text \<open>
  C8. \<open>EMS.save\<close> with an item id that is not \<open>None\<close>, while nothing is selected: unpacking
  the empty selection raises \<open>ValueError\<close>. The only call made is the read of the
  selection; the database and the container manager are as before.
\<close>

theorem save_empty_selection_aborts:
  assumes "cm w = Some v" and "cm_selections c v = Inr (PyTuple [])" and "ident \<noteq> PyNone"
  shows "EMS_save c (ident # rest) w = (Inl ValueError, w\<lparr>trace := trace w @ [Selections]\<rparr>)"
  using assms by (simp add: EMS_save_def stmt_defs)

theorem save_empty_selection_aborts_witness:
  "EMS_save spec_collab [PyStr ''pn''] (world store0 (view_at store0 it_ev [])) =
     (Inl ValueError, (world store0 (view_at store0 it_ev []))\<lparr>trace := [Selections]\<rparr>)"
proof -
  let ?v = "view_at store0 it_ev []"
  let ?w = "world store0 ?v"
  have h1: "cm ?w = Some ?v"
    by (simp add: world_def)
  have h2: "cm_selections spec_collab ?v = Inr (PyTuple [])"
    by (simp add: spec_collab_def selections_def view_at_def)
  have h3: "PyStr ''pn'' \<noteq> PyNone"
    by simp
  have "trace ?w = []"
    by (simp add: world_def)
  then show ?thesis
    using save_empty_selection_aborts [OF h1 h2 h3, of "[]"] by simp
qed

text \<open>
  C9. \<open>EMS.show\<close> with \<open>None\<close> as item id does nothing: it returns normally, makes no
  call (the trace is unchanged) and leaves database, trees and edit pane as they were.
\<close>

theorem show_none_noop: "EMS_show c (PyNone # rest) w = (Inr (), w)"
  by (simp add: EMS_show_def done_with_def)

text \<open>
  C10. \<open>EMS.delete\<close> with a non-empty parent chain uses the item id and the first element
  of the chain only: two calls from the same state that agree on both have the same
  outcome, the same calls in the same order and the same final state, whatever follows in
  the chain or in the argument list.
\<close>

theorem delete_first_parent_only:
  "EMS_delete c (ident # PyTuple (p # ps) # rest) w =
   EMS_delete c (ident # PyTuple (p # ps') # rest') w"
  by (simp add: EMS_delete_def pure_of_def and_then_def)

section \<open>Facts about the modelled store and trees\<close>

lemma children_of_edge: "ch \<in> set (children_of es r) \<longleftrightarrow> (r, ch) \<in> set es"
  by (force simp: children_of_def)

text \<open>A node of the walk is its start, or hangs under the container of one of the edges.\<close>

lemma subtree_edge:
  "(x, q) \<in> set (subtree n es r p) \<Longrightarrow> (x = r \<and> q = p) \<or> (q, x) \<in> set es"
proof (induction n arbitrary: r p)
  case 0
  then show ?case by simp
next
  case (Suc n)
  from Suc.prems consider "x = r \<and> q = p"
    | ch where "(r, ch) \<in> set es" and "(x, q) \<in> set (subtree n es ch r)"
    by (auto simp: children_of_edge)
  then show ?case
  proof cases
    case 1
    then show ?thesis by simp
  next
    case 2
    from Suc.IH [OF 2(2)] 2(1) show ?thesis by auto
  qed
qed

lemma subtree_child:
  "(p, x) \<in> set es \<Longrightarrow> (x, p) \<in> set (subtree (Suc (Suc n)) es p p0)"
  by (auto simp: children_of_edge intro!: bexI [of _ x])

text \<open>More levels and more edges never lose a node.\<close>

lemma subtree_mono:
  "n \<le> m \<Longrightarrow> set es \<subseteq> set es' \<Longrightarrow>
   fst ` set (subtree n es r p) \<subseteq> fst ` set (subtree m es' r p')"
proof (induction n arbitrary: m r p p')
  case 0
  then show ?case by simp
next
  case (Suc n)
  then obtain m' where m: "m = Suc m'" and le: "n \<le> m'"
    by (cases m) auto
  show ?case
  proof
    fix y
    assume "y \<in> fst ` set (subtree (Suc n) es r p)"
    then consider "y = r"
      | ch where "ch \<in> set (children_of es r)" and "y \<in> fst ` set (subtree n es ch r)"
      by auto
    then show "y \<in> fst ` set (subtree m es' r p')"
    proof cases
      case 1
      then show ?thesis by (simp add: m)
    next
      case 2
      from 2(1) Suc.prems(2) have ch: "ch \<in> set (children_of es' r)"
        by (auto simp: children_of_edge)
      from Suc.IH [OF le Suc.prems(2), of ch r r] 2(2)
      have "y \<in> fst ` set (subtree m' es' ch r)" by blast
      with ch show ?thesis
        by (auto simp: m)
    qed
  qed
qed

lemma find_map_eq: "find P (map f xs) = map_option f (find (\<lambda>x. P (f x)) xs)"
  by (induction xs) auto

lemma find_unique:
  assumes "y \<in> set xs" and "P y" and "\<And>z. z \<in> set xs \<Longrightarrow> P z \<Longrightarrow> z = y"
  shows "find P xs = Some y"
proof (cases "find P xs")
  case None
  with assms(1,2) show ?thesis
    by (auto simp: find_None_iff)
next
  case (Some z)
  then have "z \<in> set xs" and "P z"
    by (auto simp: find_Some_iff in_set_conv_nth)
  with assms(3) Some show ?thesis by simp
qed

lemma node_ids_display: "map node_id (display s r) = reachable s r"
  by (simp add: display_def reachable_def comp_def)

lemma root_reachable: "r \<in> set (reachable s r)"
  by (simp add: reachable_def)

lemma reachable_edge: "x \<in> set (reachable s r) \<Longrightarrow> x = r \<or> x \<in> snd ` set (edges s)"
proof -
  assume "x \<in> set (reachable s r)"
  then obtain q where "(x, q) \<in> set (subtree (Suc (length (edges s))) (edges s) r [])"
    unfolding reachable_def by (auto simp del: subtree.simps)
  from subtree_edge [OF this] show ?thesis
    by (auto simp: image_iff intro: bexI [of _ "(q, x)"])
qed

lemma reachable_add_edge:
  "set (reachable s r) \<subseteq> set (reachable (s\<lparr>edges := edges s @ [e]\<rparr>) r)"
proof -
  have "fst ` set (subtree (Suc (length (edges s))) (edges s) r []) \<subseteq>
        fst ` set (subtree (Suc (length (edges s @ [e]))) (edges s @ [e]) r [])"
    by (rule subtree_mono) auto
  then show ?thesis
    by (simp add: reachable_def del: subtree.simps)
qed

lemma in_store_add_edge: "in_store (s\<lparr>edges := es\<rparr>) r = in_store s r"
  by (simp add: in_store_def split: option.splits)

lemma rebuild_fields:
  "root_id (root t) = Some r \<Longrightarrow> nodes (rebuild s t) = display s r"
  "root (rebuild s t) = root t"
  by (simp_all add: rebuild_def Let_def)

lemma refresh_tree_idem: "refresh_tree s h (refresh_tree s h t) = refresh_tree s h t"
  by (simp add: refresh_tree_def rebuild_def Let_def)

lemma view_at_fields:
  "selection (top (view_at s it sel)) = sel"
  "root (top (view_at s it sel)) = record_of base_fields it"
  "root (bottom (view_at s it sel)) = record_of base_fields it"
  by (simp_all add: view_at_def rebuild_def fresh_tree_def Let_def)

section \<open>What the callbacks leave behind\<close>

text \<open>The calls of a \<open>save\<close> in which every step succeeds, for any collaborators.\<close>

lemma save_steps:
  assumes "cm w = Some v" and "cm_selections c v = Inr sel" and "py_first sel = Inr k"
    and "ident \<noteq> PyNone" and "db_container_add c k ident (db w) = (Inr y, s1)"
    and "cm_refresh c s1 v = (Inr (), v1)" and "cm_highlight c k s1 v1 = (Inr (), v2)"
    and "cm_open c s1 v2 = (r, v3)"
  shows "EMS_save c (ident # rest) w =
           (r, w\<lparr>db := s1, cm := Some v3,
                 trace := trace w @ [Selections, ContainerAdd k ident, Refresh, Highlight k, Open]\<rparr>)"
  using assms by (simp add: EMS_save_def stmt_defs)

text \<open>
  C2. \<open>EMS.save\<close> with the id of an item \<open>x\<close>, while the container \<open>k\<close> is the first node of
  the selection: the calls are, in this order, the read of the selection, \<open>container_add\<close>
  of \<open>x\<close> to \<open>k\<close>, \<open>refresh\<close>, \<open>highlight\<close> of \<open>k\<close> and \<open>open\<close>. With the modelled store
  and trees, where \<open>x\<close> is in no container yet, the edge closes no cycle, the Base exists
  in the store and \<open>k\<close> is reachable from it: afterwards the store has the edge from \<open>k\<close>
  to \<open>x\<close>, \<open>k\<close> is the selection and is open, and the Base is the one from before.
\<close>

theorem save_adds_edge_and_focuses_container:
  assumes "cm w = Some v" and "selection (top v) = k # ks"
    and "in_store (db w) (root (top v))" and "root_id (root (top v)) = Some r"
    and "k \<in> set (reachable (db w) r)"
    and "getParent (db w) (PyStr x) = None" and "k \<notin> set (reachable (db w) x)"
  shows "\<exists>w' v'. EMS_save spec_collab (PyStr x # rest) w = (Inr (), w')
           \<and> trace w' = trace w @ [Selections, ContainerAdd (PyStr k) (PyStr x), Refresh,
                                    Highlight (PyStr k), Open]
           \<and> (k, x) \<in> set (edges (db w'))
           \<and> cm w' = Some v' \<and> selection (top v') = [k] \<and> k \<in> set (opened (top v'))
           \<and> root (top v') = root (top v)"
proof -
  let ?s1 = "(db w)\<lparr>edges := edges (db w) @ [(k, x)]\<rparr>"
  let ?t1 = "rebuild ?s1 (top v)"
  let ?v1 = "v\<lparr>top := ?t1, bottom := refresh_tree ?s1 (home v) (bottom v)\<rparr>"
  let ?t2 = "?t1\<lparr>selection := [k],
                    opened := List.union (opened ?t1) (path_up (length (nodes ?t1)) (nodes ?t1) k)\<rparr>"
  let ?v2 = "?v1\<lparr>top := ?t2\<rparr>"
  let ?v3 = "?v2\<lparr>top := ?t2\<lparr>opened := List.union (opened ?t2) (selection ?t2)\<rparr>\<rparr>"
  have sel: "cm_selections spec_collab v = Inr (PyTuple (PyStr k # map PyStr ks))"
    using assms(2) by (simp add: spec_collab_def selections_def)
  have first: "py_first (PyTuple (PyStr k # map PyStr ks)) = Inr (PyStr k)"
    by simp
  have add: "db_container_add spec_collab (PyStr k) (PyStr x) (db w) = (Inr PyNone, ?s1)"
    using assms(6,7) by (simp add: spec_collab_def addContainerEdge_def)
  have "in_store ?s1 (root (top v))"
    using assms(3) by (simp add: in_store_add_edge)
  then have rf: "cm_refresh spec_collab ?s1 v = (Inr (), ?v1)"
    by (simp add: spec_collab_def refresh_def refresh_tree_def)
  have "k \<in> set (reachable ?s1 r)"
    using assms(5) reachable_add_edge [of "db w" r "(k, x)"] by blast
  then have shown: "k \<in> set (map node_id (nodes ?t1))"
    using assms(4) by (simp only: rebuild_fields node_ids_display)
  have hl: "cm_highlight spec_collab (PyStr k) ?s1 ?v1 = (Inr (), ?v2)"
    using shown by (simp add: spec_collab_def highlight_def)
  have op: "cm_open spec_collab ?s1 ?v2 = (Inr (), ?v3)"
    by (simp add: spec_collab_def open_selected_def)
  have run: "EMS_save spec_collab (PyStr x # rest) w =
          (Inr (), w\<lparr>db := ?s1, cm := Some ?v3,
             trace := trace w @ [Selections, ContainerAdd (PyStr k) (PyStr x), Refresh,
                                 Highlight (PyStr k), Open]\<rparr>)"
    by (rule save_steps [OF assms(1) sel first _ add rf hl op]) simp
  show ?thesis
    unfolding run by (intro exI [of _ "w\<lparr>db := ?s1, cm := Some ?v3,
             trace := trace w @ [Selections, ContainerAdd (PyStr k) (PyStr x), Refresh,
                                 Highlight (PyStr k), Open]\<rparr>"] exI [of _ ?v3])
      (simp add: rebuild_fields)
qed

text \<open>Saving the person \<open>pn\<close> while the station \<open>st\<close> is selected.\<close>

theorem save_adds_edge_and_focuses_container_witness:
  "\<exists>w' v'. EMS_save spec_collab [PyStr ''pn''] (world store0 (view_at store0 it_ev [''st''])) = (Inr (), w')
           \<and> trace w' = [Selections, ContainerAdd (PyStr ''st'') (PyStr ''pn''), Refresh,
                          Highlight (PyStr ''st''), Open]
           \<and> (''st'', ''pn'') \<in> set (edges (db w'))
           \<and> cm w' = Some v' \<and> selection (top v') = [''st''] \<and> ''st'' \<in> set (opened (top v'))
           \<and> root (top v') = record_of base_fields it_ev"
proof -
  let ?v = "view_at store0 it_ev [''st'']"
  let ?w = "world store0 ?v"
  have h1: "cm ?w = Some ?v"
    by (simp add: world_def)
  have h2: "selection (top ?v) = ''st'' # []"
    by (simp add: view_at_fields)
  have h3: "in_store (db ?w) (root (top ?v))"
    by (simp add: view_at_fields world_def in_store_def root_id_def record_of_def
        base_fields_def it_ev_def store0_def)
  have h4: "root_id (root (top ?v)) = Some ''ev''"
    by (simp add: view_at_fields root_id_def record_of_def base_fields_def it_ev_def)
  have h5: "''st'' \<in> set (reachable (db ?w) ''ev'')"
    by (simp add: world_def store0_def reachable_def children_of_def)
  have h6: "getParent (db ?w) (PyStr ''pn'') = None"
    by (simp add: world_def store0_def getParent_def)
  have h7: "''st'' \<notin> set (reachable (db ?w) ''pn'')"
    by (simp add: world_def store0_def reachable_def children_of_def)
  have "trace ?w = []"
    by (simp add: world_def)
  then show ?thesis
    using save_adds_edge_and_focuses_container [OF h1 h2 h3 h4 h5 h6 h7, of "[]"]
    by (simp add: view_at_fields)
qed

text \<open>
  C6. \<open>EMS.refresh\<close> only calls \<open>cm.refresh\<close>. With the modelled trees, a second refresh on
  the same store changes nothing: the container manager (both trees with their nodes and
  labels, open nodes, selection and the Base) is the one the first refresh left, the
  store is untouched and the outcome is the same.
\<close>

theorem refresh_twice_same:
  "cm (snd (EMS_refresh spec_collab (snd (EMS_refresh spec_collab w)))) =
     cm (snd (EMS_refresh spec_collab w))
   \<and> db (snd (EMS_refresh spec_collab (snd (EMS_refresh spec_collab w)))) = db w
   \<and> fst (EMS_refresh spec_collab (snd (EMS_refresh spec_collab w))) =
     fst (EMS_refresh spec_collab w)"
proof (cases "cm w")
  case None
  then show ?thesis
    by (simp add: EMS_refresh_def cm_do_def)
next
  case (Some v)
  then show ?thesis
    by (simp add: EMS_refresh_def cm_do_def logged_def spec_collab_def refresh_def refresh_tree_idem)
qed

text \<open>The two runs of \<open>newchild\<close>, for any collaborators.\<close>

lemma newchild_direct:
  assumes "cm w = Some v" and "tree_parent c target v = Inr q" and "q \<noteq> PyStr []"
    and "cm_highlight c q (db w) v = (r, v')"
  shows "EMS_newchild c target w =
           (r, w\<lparr>cm := Some v', trace := trace w @ [TreeParent target, Highlight q]\<rparr>)"
  using assms by (simp add: EMS_newchild_def stmt_defs)

lemma newchild_rebased:
  assumes "cm w = Some v" and "tree_parent c target v = Inr (PyStr [])"
    and "tree_rebase c target (db w) v = (Inr (), v1)" and "tree_parent c target v1 = Inr q"
    and "cm_highlight c q (db w) v1 = (r, v2)"
  shows "EMS_newchild c target w =
           (r, w\<lparr>cm := Some v2,
                 trace := trace w @ [TreeParent target, TreeRebase target, TreeParent target, Highlight q]\<rparr>)"
  using assms by (simp add: EMS_newchild_def stmt_defs)

lemma find_SomeD: "find P xs = Some y \<Longrightarrow> y \<in> set xs \<and> P y"
  by (induction xs) (auto split: if_splits)

lemma getParent_edge:
  assumes "getParent s (PyStr x) = Some p"
  shows "(p, x) \<in> set (edges s)"
proof -
  from assms obtain e where e: "find (\<lambda>e. PyStr (snd e) = PyStr x) (edges s) = Some e"
    and p: "fst e = p"
    by (auto simp: getParent_def)
  from find_SomeD [OF e] p show ?thesis
    by (cases e) auto
qed

lemma getItem_found:
  assumes "p \<in> set (map item_id (items s))"
  shows "\<exists>it. getItem (PyStr p) base_fields s = Inr (record_of base_fields it) \<and> item_id it = p"
proof (cases "find (\<lambda>it. PyStr (item_id it) = PyStr p) (items s)")
  case None
  with assms show ?thesis by (auto simp: find_None_iff)
next
  case (Some it)
  then have "item_id it = p"
    by (auto simp: find_Some_iff)
  with Some show ?thesis
    by (auto simp: getItem_def)
qed

lemma root_id_record: "root_id (record_of base_fields it) = Some (item_id it)"
  by (simp add: root_id_def record_of_def base_fields_def)

lemma in_store_record:
  "item_id it \<in> set (map item_id (items s)) \<Longrightarrow> in_store s (record_of base_fields it)"
  by (simp add: in_store_def root_id_record)

text \<open>\<open>setBase\<close> on a record that the store has.\<close>

lemma setBase_found:
  assumes "item_id it \<in> set (map item_id (items s))"
  shows "setBase (record_of base_fields it) s v =
           (Inr (), v\<lparr>top := \<lparr>root = record_of base_fields it, nodes = display s (item_id it),
                              opened = [], selection = []\<rparr>,
                      bottom := \<lparr>root = record_of base_fields it, nodes = display s (item_id it),
                              opened = [], selection = []\<rparr>\<rparr>)"
  using in_store_record [OF assms]
  by (simp add: setBase_def refresh_tree_def rebuild_def fresh_tree_def Let_def root_id_record)

lemma single_parent:
  assumes "distinct (map snd es)" and "(p, x) \<in> set es" and "(q, x) \<in> set es"
  shows "q = p"
proof -
  from assms(1) have "inj_on snd (set es)"
    by (simp add: distinct_map)
  from inj_onD [OF this _ assms(3) assms(2)] show ?thesis
    by simp
qed

lemma parent_in_display:
  assumes "(p, x) \<in> set (edges s)" and "distinct (map snd (edges s))" and "x \<noteq> p"
  shows "find (\<lambda>n. PyStr (node_id n) = PyStr x) (display s p) =
           Some \<lparr>node_id = x, node_parent = p, node_label = label_of s x\<rparr>"
proof -
  obtain n where len: "length (edges s) = Suc n"
    using assms(1) by (cases "edges s") auto
  let ?xs = "subtree (Suc (Suc n)) (edges s) p []"
  have "find (\<lambda>xp. fst xp = x) ?xs = Some (x, p)"
  proof (rule find_unique)
    show "(x, p) \<in> set ?xs"
      by (rule subtree_child [OF assms(1)])
    show "fst (x, p) = x" by simp
  next
    fix z
    assume z: "z \<in> set ?xs" and "fst z = x"
    then have "(x, snd z) \<in> set ?xs"
      by (metis prod.collapse)
    from subtree_edge [OF this] assms(3) have "(snd z, x) \<in> set (edges s)"
      by auto
    with assms(1,2) have "snd z = p"
      by (rule_tac single_parent) auto
    with \<open>fst z = x\<close> show "z = (x, p)"
      by (cases z) simp
  qed
  then show ?thesis
    by (simp add: display_def len find_map_eq del: subtree.simps)
qed

lemma highlight_keeps:
  "root (top (snd (highlight q s v))) = root (top v)"
  "bottom (snd (highlight q s v)) = bottom v"
  "nodes (top (snd (highlight q s v))) = nodes (top v)"
  by (simp_all add: highlight_def split: pyval.splits)

lemma highlight_ok: "highlight q s v = (Inr (), snd (highlight q s v))"
  by (simp add: highlight_def split: pyval.splits)

lemma parentOf_highlight: "parentOf i (snd (highlight q s v)) = parentOf i v"
  by (simp add: parentOf_def highlight_keeps)

lemma highlight_shown:
  "x \<in> set (map node_id (nodes (top v))) \<Longrightarrow> selection (top (snd (highlight (PyStr x) s v))) = [x]"
  by (simp add: highlight_def)

text \<open>
  C3 (as the code and the modelled trees have it). \<open>EMS.newchild\<close> on node \<open>x\<close> asks
  the upper tree for the parent of \<open>x\<close>. When the answer is the empty string and the
  store knows a parent \<open>p\<close> of \<open>x\<close> (an existing item, other than \<open>x\<close>, in a store
  where every item has at most one container), the calls are parent, rebase, parent,
  highlight of \<open>p\<close>; afterwards both trees are rooted at \<open>p\<close>, the parent of \<open>x\<close> in
  the view is \<open>p\<close> and \<open>p\<close> is the selection. When the answer is a parent \<open>q\<close> other
  than the empty string, the calls are parent and highlight of \<open>q\<close>; the trees are what
  \<open>highlight\<close> makes of them, so the roots of both trees are the ones from before and
  the parent of \<open>x\<close> in the view is still \<open>q\<close>.
\<close>

theorem newchild_rebases_or_highlights_parent:
  assumes "cm w = Some v" and "parentOf (PyStr x) v = Inr q"
  shows "(q = PyStr [] \<and> getParent (db w) (PyStr x) = Some p
            \<and> p \<in> set (map item_id (items (db w)))
            \<and> distinct (map snd (edges (db w))) \<and> x \<noteq> p \<longrightarrow>
          (\<exists>w' v'. EMS_newchild spec_collab (PyStr x) w = (Inr (), w')
             \<and> trace w' = trace w @ [TreeParent (PyStr x), TreeRebase (PyStr x),
                                      TreeParent (PyStr x), Highlight (PyStr p)]
             \<and> cm w' = Some v'
             \<and> root_id (root (top v')) = Some p \<and> root_id (root (bottom v')) = Some p
             \<and> parentOf (PyStr x) v' = Inr (PyStr p) \<and> selection (top v') = [p]))
       \<and> (q \<noteq> PyStr [] \<longrightarrow>
          (\<exists>w' v'. EMS_newchild spec_collab (PyStr x) w = (Inr (), w')
             \<and> trace w' = trace w @ [TreeParent (PyStr x), Highlight q]
             \<and> cm w' = Some v' \<and> v' = snd (highlight q (db w) v)
             \<and> root (top v') = root (top v) \<and> root (bottom v') = root (bottom v)
             \<and> parentOf (PyStr x) v' = Inr q))"
proof (intro conjI impI)
  assume a: "q = PyStr [] \<and> getParent (db w) (PyStr x) = Some p
            \<and> p \<in> set (map item_id (items (db w)))
            \<and> distinct (map snd (edges (db w))) \<and> x \<noteq> p"
  let ?s = "db w"
  from a obtain it where it: "getItem (PyStr p) base_fields ?s = Inr (record_of base_fields it)"
    and idp: "item_id it = p"
    using getItem_found by blast
  let ?t = "\<lparr>root = record_of base_fields it, nodes = display ?s p, opened = [], selection = []\<rparr>"
  let ?v1 = "v\<lparr>top := ?t, bottom := ?t\<rparr>"
  let ?v2 = "snd (highlight (PyStr p) ?s ?v1)"
  have edge: "(p, x) \<in> set (edges ?s)"
    using a by (simp add: getParent_edge)
  have p0: "tree_parent spec_collab (PyStr x) v = Inr (PyStr [])"
    using assms(2) a by (simp add: spec_collab_def)
  have "setBase (record_of base_fields it) ?s v = (Inr (), ?v1)"
    using setBase_found [of it ?s v] a idp by simp
  then have rb: "tree_rebase spec_collab (PyStr x) ?s v = (Inr (), ?v1)"
    using a it by (simp add: spec_collab_def rebase_def)
  have par: "parentOf (PyStr x) ?v1 = Inr (PyStr p)"
    using parent_in_display [OF edge] a by (simp add: parentOf_def)
  then have p1: "tree_parent spec_collab (PyStr x) ?v1 = Inr (PyStr p)"
    by (simp add: spec_collab_def)
  have hl: "cm_highlight spec_collab (PyStr p) ?s ?v1 = (Inr (), ?v2)"
    by (simp add: spec_collab_def) (rule highlight_ok)
  have run: "EMS_newchild spec_collab (PyStr x) w =
           (Inr (), w\<lparr>cm := Some ?v2,
                 trace := trace w @ [TreeParent (PyStr x), TreeRebase (PyStr x),
                                     TreeParent (PyStr x), Highlight (PyStr p)]\<rparr>)"
    by (rule newchild_rebased [OF assms(1) p0 rb p1 hl])
  have shown: "p \<in> set (map node_id (nodes (top ?v1)))"
    by (simp add: node_ids_display root_reachable)
  have sel: "selection (top ?v2) = [p]"
    using highlight_shown [OF shown] .
  have "root (top ?v2) = record_of base_fields it" "bottom ?v2 = ?t"
    by (simp_all add: highlight_keeps)
  then have roots: "root_id (root (top ?v2)) = Some p" "root_id (root (bottom ?v2)) = Some p"
    using idp by (simp_all add: root_id_record)
  have par2: "parentOf (PyStr x) ?v2 = Inr (PyStr p)"
    using par by (simp only: parentOf_highlight)
  show "\<exists>w' v'. EMS_newchild spec_collab (PyStr x) w = (Inr (), w')
             \<and> trace w' = trace w @ [TreeParent (PyStr x), TreeRebase (PyStr x),
                                      TreeParent (PyStr x), Highlight (PyStr p)]
             \<and> cm w' = Some v'
             \<and> root_id (root (top v')) = Some p \<and> root_id (root (bottom v')) = Some p
             \<and> parentOf (PyStr x) v' = Inr (PyStr p) \<and> selection (top v') = [p]"
    unfolding run using sel roots par2
    by (intro exI [of _ "w\<lparr>cm := Some ?v2,
                 trace := trace w @ [TreeParent (PyStr x), TreeRebase (PyStr x),
                                     TreeParent (PyStr x), Highlight (PyStr p)]\<rparr>"] exI [of _ ?v2])
      simp
next
  assume b: "q \<noteq> PyStr []"
  let ?v' = "snd (highlight q (db w) v)"
  have p0: "tree_parent spec_collab (PyStr x) v = Inr q"
    using assms(2) by (simp add: spec_collab_def)
  have hl: "cm_highlight spec_collab q (db w) v = (Inr (), ?v')"
    by (simp add: spec_collab_def) (rule highlight_ok)
  have run: "EMS_newchild spec_collab (PyStr x) w =
           (Inr (), w\<lparr>cm := Some ?v', trace := trace w @ [TreeParent (PyStr x), Highlight q]\<rparr>)"
    by (rule newchild_direct [OF assms(1) p0 b hl])
  show "\<exists>w' v'. EMS_newchild spec_collab (PyStr x) w = (Inr (), w')
             \<and> trace w' = trace w @ [TreeParent (PyStr x), Highlight q]
             \<and> cm w' = Some v' \<and> v' = snd (highlight q (db w) v)
             \<and> root (top v') = root (top v) \<and> root (bottom v') = root (bottom v)
             \<and> parentOf (PyStr x) v' = Inr q"
    unfolding run using assms(2)
    by (intro exI [of _ "w\<lparr>cm := Some ?v', trace := trace w @ [TreeParent (PyStr x), Highlight q]\<rparr>"]
        exI [of _ ?v'])
      (simp add: highlight_keeps parentOf_highlight)
qed

text \<open>
  C3 (as the claim has it) fails in its last sentence when the parent is displayed: with
  the trees rooted at the evacuation \<open>ev\<close>, the parent of the lane \<open>ln\<close> in the view
  is the station \<open>st\<close>; after \<open>newchild\<close> the Base still is \<open>ev\<close>, not \<open>st\<close>.
\<close>

theorem newchild_direct_keeps_base:
  "parentOf (PyStr ''ln'') (view_at store0 it_ev []) = Inr (PyStr ''st'')
   \<and> map_option (root_id \<circ> root \<circ> top)
        (cm (snd (EMS_newchild spec_collab (PyStr ''ln'') (world store0 (view_at store0 it_ev [])))))
      = Some (Some ''ev'')"
  by (simp add: EMS_newchild_def stmt_defs spec_defs example_defs Let_def)

text \<open>
  Both runs: \<open>newchild\<close> of the station while the trees are rooted at it, and of the
  lane while they are rooted at the evacuation.
\<close>

theorem newchild_rebases_or_highlights_parent_witness:
  "(\<exists>w' v'. EMS_newchild spec_collab (PyStr ''st'') (world store0 (view_at store0 it_st [])) = (Inr (), w')
       \<and> trace w' = [TreeParent (PyStr ''st''), TreeRebase (PyStr ''st''),
                      TreeParent (PyStr ''st''), Highlight (PyStr ''ev'')]
       \<and> cm w' = Some v'
       \<and> root_id (root (top v')) = Some ''ev'' \<and> root_id (root (bottom v')) = Some ''ev''
       \<and> parentOf (PyStr ''st'') v' = Inr (PyStr ''ev'') \<and> selection (top v') = [''ev''])
   \<and> (\<exists>w' v'. EMS_newchild spec_collab (PyStr ''ln'') (world store0 (view_at store0 it_ev [])) = (Inr (), w')
       \<and> trace w' = [TreeParent (PyStr ''ln''), Highlight (PyStr ''st'')]
       \<and> cm w' = Some v'
       \<and> root (top v') = record_of base_fields it_ev \<and> root (bottom v') = record_of base_fields it_ev
       \<and> parentOf (PyStr ''ln'') v' = Inr (PyStr ''st''))"
proof -
  let ?va = "view_at store0 it_st []"
  let ?wa = "world store0 ?va"
  let ?vb = "view_at store0 it_ev []"
  let ?wb = "world store0 ?vb"
  have a1: "cm ?wa = Some ?va" and b1: "cm ?wb = Some ?vb"
    by (simp_all add: world_def)
  have a2: "parentOf (PyStr ''st'') ?va = Inr (PyStr [])"
    by (simp add: spec_defs example_defs Let_def)
  have b2: "parentOf (PyStr ''ln'') ?vb = Inr (PyStr ''st'')"
    by (simp add: spec_defs example_defs Let_def)
  have a3: "PyStr [] = PyStr [] \<and> getParent (db ?wa) (PyStr ''st'') = Some ''ev''
            \<and> ''ev'' \<in> set (map item_id (items (db ?wa)))
            \<and> distinct (map snd (edges (db ?wa))) \<and> ''st'' \<noteq> ''ev''"
    by (simp add: getParent_def example_defs)
  have b3: "PyStr ''st'' \<noteq> PyStr []"
    by simp
  have ta: "trace ?wa = []" and tb: "trace ?wb = []"
    by (simp_all add: world_def)
  note A = newchild_rebases_or_highlights_parent [OF a1 a2, of "''ev''", unfolded ta append_Nil]
  note B = newchild_rebases_or_highlights_parent [OF b1 b2, of "''ev''", unfolded tb append_Nil view_at_fields]
  from A a3 have
    "\<exists>w' v'. EMS_newchild spec_collab (PyStr ''st'') ?wa = (Inr (), w')
       \<and> trace w' = [TreeParent (PyStr ''st''), TreeRebase (PyStr ''st''),
                      TreeParent (PyStr ''st''), Highlight (PyStr ''ev'')]
       \<and> cm w' = Some v'
       \<and> root_id (root (top v')) = Some ''ev'' \<and> root_id (root (bottom v')) = Some ''ev''
       \<and> parentOf (PyStr ''st'') v' = Inr (PyStr ''ev'') \<and> selection (top v') = [''ev'']"
    by blast
  moreover from B b3 have
    "\<exists>w' v'. EMS_newchild spec_collab (PyStr ''ln'') ?wb = (Inr (), w')
       \<and> trace w' = [TreeParent (PyStr ''ln''), Highlight (PyStr ''st'')]
       \<and> cm w' = Some v'
       \<and> root (top v') = record_of base_fields it_ev \<and> root (bottom v') = record_of base_fields it_ev
       \<and> parentOf (PyStr ''ln'') v' = Inr (PyStr ''st'')"
    by blast
  ultimately show ?thesis
    by (rule conjI)
qed

lemma delete_base_steps:
  assumes "cm w = Some v" and "cm_base c v = Inr b" and "py_getitem b ''_id'' = Inr ident"
    and "db_item_get c parent base_fields (db w) = Inr nb"
    and "cm_set_base c nb (db w) v = (Inr (), v1)" and "cm_refresh c (db w) v1 = (Inr (), v2)"
    and "cm_highlight c parent (db w) v2 = (Inr (), v3)" and "cm_open c (db w) v3 = (r, v4)"
  shows "EMS_delete c (ident # PyTuple (parent # ps) # rest) w =
           (r, w\<lparr>cm := Some v4,
                 trace := trace w @ [BaseGet, ItemGet parent base_fields, BaseSet nb, Refresh,
                                     Highlight parent, Open]\<rparr>)"
  using assms by (simp add: EMS_delete_def stmt_defs)

lemma delete_other_steps:
  assumes "cm w = Some v" and "cm_base c v = Inr b" and "py_getitem b ''_id'' = Inr bid"
    and "ident \<noteq> bid" and "cm_refresh c (db w) v = (Inr (), v2)"
    and "cm_highlight c parent (db w) v2 = (Inr (), v3)" and "cm_open c (db w) v3 = (r, v4)"
  shows "EMS_delete c (ident # PyTuple (parent # ps) # rest) w =
           (r, w\<lparr>cm := Some v4, trace := trace w @ [BaseGet, Refresh, Highlight parent, Open]\<rparr>)"
  using assms by (simp add: EMS_delete_def stmt_defs)

lemma open_keeps:
  "root (top (snd (open_selected s v))) = root (top v)"
  "bottom (snd (open_selected s v)) = bottom v"
  "nodes (top (snd (open_selected s v))) = nodes (top v)"
  "selection (top (snd (open_selected s v))) = selection (top v)"
  "set (opened (top (snd (open_selected s v)))) = set (opened (top v)) \<union> set (selection (top v))"
  by (simp_all add: open_selected_def)

lemma open_ok: "open_selected s v = (Inr (), snd (open_selected s v))"
  by (simp add: open_selected_def)

lemma in_store_root_id: "in_store s r \<Longrightarrow> \<exists>x. root_id r = Some x \<and> x \<in> set (map item_id (items s))"
  by (auto simp: in_store_def split: option.splits)

lemma deleted_not_reachable:
  assumes "x \<notin> snd ` set (edges s)" and "x \<noteq> r"
  shows "x \<notin> set (reachable s r)"
  using assms reachable_edge by blast

lemma refresh_in_store:
  assumes "in_store s (root (top v))" and "in_store s (root (bottom v))"
  shows "refresh s v = (Inr (), v\<lparr>top := rebuild s (top v), bottom := rebuild s (bottom v)\<rparr>)"
  using assms by (simp add: refresh_def refresh_tree_def)

text \<open>
  C4. \<open>EMS.delete\<close> of item \<open>x\<close> with a parent chain that starts with \<open>p\<close>, called once
  \<open>x\<close> is gone from the store (the edit pane deletes before it calls back). When the
  id of the Base is \<open>x\<close> and the store has \<open>p\<close>: the calls are base, \<open>item_get\<close> of
  \<open>p\<close>, base with the record of \<open>p\<close> as new base, refresh, highlight of \<open>p\<close>, open;
  afterwards both trees are rooted at the record of \<open>p\<close>, \<open>p\<close> is the selection and is
  open, and \<open>x\<close> is in neither tree. When the id of the Base is not \<open>x\<close> (and the Base,
  shared by both trees, exists in the store): the calls are base, refresh, highlight of
  \<open>p\<close>, open; the Base is unchanged and \<open>x\<close> is in neither tree.
\<close>

theorem delete_with_parent_chain:
  assumes "cm w = Some v" and "py_getitem (root (top v)) ''_id'' = Inr bid"
    and "x \<notin> set (map item_id (items (db w)))" and "x \<notin> snd ` set (edges (db w))"
  shows "(bid = PyStr x \<and> p \<in> set (map item_id (items (db w))) \<longrightarrow>
          (\<exists>w' v' nb. EMS_delete spec_collab (PyStr x # PyTuple (PyStr p # ps) # rest) w = (Inr (), w')
             \<and> getItem (PyStr p) base_fields (db w) = Inr nb
             \<and> trace w' = trace w @ [BaseGet, ItemGet (PyStr p) base_fields, BaseSet nb, Refresh,
                                      Highlight (PyStr p), Open]
             \<and> db w' = db w \<and> cm w' = Some v'
             \<and> root (top v') = nb \<and> root (bottom v') = nb \<and> root_id nb = Some p
             \<and> selection (top v') = [p] \<and> p \<in> set (opened (top v'))
             \<and> x \<notin> set (map node_id (nodes (top v')))
             \<and> x \<notin> set (map node_id (nodes (bottom v')))))
       \<and> (bid \<noteq> PyStr x \<and> in_store (db w) (root (top v)) \<and> root (bottom v) = root (top v) \<longrightarrow>
          (\<exists>w' v'. EMS_delete spec_collab (PyStr x # PyTuple (PyStr p # ps) # rest) w = (Inr (), w')
             \<and> trace w' = trace w @ [BaseGet, Refresh, Highlight (PyStr p), Open]
             \<and> db w' = db w \<and> cm w' = Some v'
             \<and> root (top v') = root (top v) \<and> root (bottom v') = root (top v)
             \<and> x \<notin> set (map node_id (nodes (top v')))
             \<and> x \<notin> set (map node_id (nodes (bottom v')))))"
proof (intro conjI impI)
  let ?s = "db w"
  assume a: "bid = PyStr x \<and> p \<in> set (map item_id (items ?s))"
  then obtain it where it: "getItem (PyStr p) base_fields ?s = Inr (record_of base_fields it)"
    and idp: "item_id it = p"
    using getItem_found by blast
  let ?nb = "record_of base_fields it"
  let ?t = "\<lparr>root = ?nb, nodes = display ?s p, opened = [], selection = []\<rparr>"
  let ?v1 = "v\<lparr>top := ?t, bottom := ?t\<rparr>"
  let ?v3 = "snd (highlight (PyStr p) ?s ?v1)"
  let ?v4 = "snd (open_selected ?s ?v3)"
  let ?w' = "w\<lparr>cm := Some ?v4,
                 trace := trace w @ [BaseGet, ItemGet (PyStr p) base_fields, BaseSet ?nb, Refresh,
                                     Highlight (PyStr p), Open]\<rparr>"
  have xp: "x \<noteq> p"
    using a assms(3) by auto
  have inb: "in_store ?s ?nb"
    using a idp by (simp add: in_store_record)
  have bg: "cm_base spec_collab v = Inr (root (top v))"
    by (simp add: spec_collab_def base_def)
  have gi: "py_getitem (root (top v)) ''_id'' = Inr (PyStr x)"
    using assms(2) a by simp
  have ig: "db_item_get spec_collab (PyStr p) base_fields ?s = Inr ?nb"
    using it by (simp add: spec_collab_def)
  have sb: "cm_set_base spec_collab ?nb ?s v = (Inr (), ?v1)"
    using setBase_found [of it ?s v] a idp by (simp add: spec_collab_def)
  have "rebuild ?s ?t = ?t"
    using idp by (simp add: rebuild_def Let_def root_id_record)
  then have rf: "cm_refresh spec_collab ?s ?v1 = (Inr (), ?v1)"
    using inb by (simp add: spec_collab_def refresh_in_store)
  have hl: "cm_highlight spec_collab (PyStr p) ?s ?v1 = (Inr (), ?v3)"
    by (simp add: spec_collab_def) (rule highlight_ok)
  have op: "cm_open spec_collab ?s ?v3 = (Inr (), ?v4)"
    by (simp add: spec_collab_def) (rule open_ok)
  have run: "EMS_delete spec_collab (PyStr x # PyTuple (PyStr p # ps) # rest) w = (Inr (), ?w')"
    by (rule delete_base_steps [OF assms(1) bg gi ig sb rf hl op])
  have shown: "p \<in> set (map node_id (nodes (top ?v1)))"
    by (simp add: node_ids_display root_reachable)
  have sel: "selection (top ?v4) = [p]"
    using highlight_shown [OF shown] by (simp add: open_keeps)
  then have opn: "p \<in> set (opened (top ?v4))"
    by (simp add: open_keeps)
  have roots: "root (top ?v4) = ?nb" "root (bottom ?v4) = ?nb"
    by (simp_all add: open_keeps highlight_keeps)
  have gone: "x \<notin> set (reachable ?s p)"
    using assms(4) xp by (rule deleted_not_reachable)
  then have absent: "x \<notin> set (map node_id (nodes (top ?v4)))"
    "x \<notin> set (map node_id (nodes (bottom ?v4)))"
    by (simp_all add: open_keeps highlight_keeps node_ids_display)
  show "\<exists>w' v' nb. EMS_delete spec_collab (PyStr x # PyTuple (PyStr p # ps) # rest) w = (Inr (), w')
             \<and> getItem (PyStr p) base_fields (db w) = Inr nb
             \<and> trace w' = trace w @ [BaseGet, ItemGet (PyStr p) base_fields, BaseSet nb, Refresh,
                                      Highlight (PyStr p), Open]
             \<and> db w' = db w \<and> cm w' = Some v'
             \<and> root (top v') = nb \<and> root (bottom v') = nb \<and> root_id nb = Some p
             \<and> selection (top v') = [p] \<and> p \<in> set (opened (top v'))
             \<and> x \<notin> set (map node_id (nodes (top v')))
             \<and> x \<notin> set (map node_id (nodes (bottom v')))"
    unfolding run using it sel opn roots absent idp
    by (intro exI [of _ ?w'] exI [of _ ?v4] exI [of _ ?nb]) (simp add: root_id_record)
next
  let ?s = "db w"
  assume b: "bid \<noteq> PyStr x \<and> in_store ?s (root (top v)) \<and> root (bottom v) = root (top v)"
  then obtain r where r: "root_id (root (top v)) = Some r" and rin: "r \<in> set (map item_id (items ?s))"
    using in_store_root_id by blast
  let ?v2 = "v\<lparr>top := rebuild ?s (top v), bottom := rebuild ?s (bottom v)\<rparr>"
  let ?v3 = "snd (highlight (PyStr p) ?s ?v2)"
  let ?v4 = "snd (open_selected ?s ?v3)"
  let ?w' = "w\<lparr>cm := Some ?v4, trace := trace w @ [BaseGet, Refresh, Highlight (PyStr p), Open]\<rparr>"
  have xr: "x \<noteq> r"
    using rin assms(3) by auto
  have bg: "cm_base spec_collab v = Inr (root (top v))"
    by (simp add: spec_collab_def base_def)
  have ne: "PyStr x \<noteq> bid"
    using b by auto
  have rf: "cm_refresh spec_collab ?s v = (Inr (), ?v2)"
    using b by (simp add: spec_collab_def refresh_in_store)
  have hl: "cm_highlight spec_collab (PyStr p) ?s ?v2 = (Inr (), ?v3)"
    by (simp add: spec_collab_def) (rule highlight_ok)
  have op: "cm_open spec_collab ?s ?v3 = (Inr (), ?v4)"
    by (simp add: spec_collab_def) (rule open_ok)
  have run: "EMS_delete spec_collab (PyStr x # PyTuple (PyStr p # ps) # rest) w = (Inr (), ?w')"
    by (rule delete_other_steps [OF assms(1) bg assms(2) ne rf hl op])
  have roots: "root (top ?v4) = root (top v)" "root (bottom ?v4) = root (top v)"
    using b by (simp_all add: open_keeps highlight_keeps rebuild_fields)
  have rb: "root_id (root (bottom v)) = Some r"
    using b r by simp
  have gone: "x \<notin> set (reachable ?s r)"
    using assms(4) xr by (rule deleted_not_reachable)
  then have absent: "x \<notin> set (map node_id (nodes (top ?v4)))"
    "x \<notin> set (map node_id (nodes (bottom ?v4)))"
    using r rb by (simp_all add: open_keeps highlight_keeps rebuild_fields node_ids_display)
  show "\<exists>w' v'. EMS_delete spec_collab (PyStr x # PyTuple (PyStr p # ps) # rest) w = (Inr (), w')
             \<and> trace w' = trace w @ [BaseGet, Refresh, Highlight (PyStr p), Open]
             \<and> db w' = db w \<and> cm w' = Some v'
             \<and> root (top v') = root (top v) \<and> root (bottom v') = root (top v)
             \<and> x \<notin> set (map node_id (nodes (top v')))
             \<and> x \<notin> set (map node_id (nodes (bottom v')))"
    unfolding run using roots absent
    by (intro exI [of _ ?w'] exI [of _ ?v4]) simp
qed

text \<open>
  Deleting the lane, whose parent is the station: once with the trees rooted at the
  lane, once with the trees rooted at the evacuation.
\<close>

theorem delete_with_parent_chain_witness:
  "(\<exists>w' v' nb. EMS_delete spec_collab [PyStr ''ln'', PyTuple [PyStr ''st'']]
                   (world store1 (view_at store0 it_ln [])) = (Inr (), w')
       \<and> getItem (PyStr ''st'') base_fields store1 = Inr nb
       \<and> trace w' = [BaseGet, ItemGet (PyStr ''st'') base_fields, BaseSet nb, Refresh,
                      Highlight (PyStr ''st''), Open]
       \<and> db w' = store1 \<and> cm w' = Some v'
       \<and> root (top v') = nb \<and> root (bottom v') = nb \<and> root_id nb = Some ''st''
       \<and> selection (top v') = [''st''] \<and> ''st'' \<in> set (opened (top v'))
       \<and> ''ln'' \<notin> set (map node_id (nodes (top v')))
       \<and> ''ln'' \<notin> set (map node_id (nodes (bottom v'))))
   \<and> (\<exists>w' v'. EMS_delete spec_collab [PyStr ''ln'', PyTuple [PyStr ''st'']]
                   (world store1 (view_at store0 it_ev [])) = (Inr (), w')
       \<and> trace w' = [BaseGet, Refresh, Highlight (PyStr ''st''), Open]
       \<and> db w' = store1 \<and> cm w' = Some v'
       \<and> root (top v') = record_of base_fields it_ev
       \<and> root (bottom v') = record_of base_fields it_ev
       \<and> ''ln'' \<notin> set (map node_id (nodes (top v')))
       \<and> ''ln'' \<notin> set (map node_id (nodes (bottom v'))))"
proof -
  let ?va = "view_at store0 it_ln []"
  let ?wa = "world store1 ?va"
  let ?vb = "view_at store0 it_ev []"
  let ?wb = "world store1 ?vb"
  have a1: "cm ?wa = Some ?va" and b1: "cm ?wb = Some ?vb"
    by (simp_all add: world_def)
  have a2: "py_getitem (root (top ?va)) ''_id'' = Inr (PyStr ''ln'')"
    by (simp add: view_at_fields record_of_def base_fields_def it_ln_def)
  have b2: "py_getitem (root (top ?vb)) ''_id'' = Inr (PyStr ''ev'')"
    by (simp add: view_at_fields record_of_def base_fields_def it_ev_def)
  have da: "db ?wa = store1" and db: "db ?wb = store1"
    and ta: "trace ?wa = []" and tb: "trace ?wb = []"
    by (simp_all add: world_def)
  have h3: "''ln'' \<notin> set (map item_id (items store1))"
    and h4: "''ln'' \<notin> snd ` set (edges store1)"
    by (simp_all add: example_defs)
  have a5: "PyStr ''ln'' = PyStr ''ln'' \<and> ''st'' \<in> set (map item_id (items store1))"
    by (simp add: example_defs)
  have b5: "PyStr ''ev'' \<noteq> PyStr ''ln'' \<and> in_store store1 (record_of base_fields it_ev)
            \<and> record_of base_fields it_ev = record_of base_fields it_ev"
    by (simp add: in_store_record example_defs)
  note A = delete_with_parent_chain [OF a1 a2, of "''ln''" "''st''" "[]" "[]",
      unfolded da ta append_Nil, OF h3 h4]
  note B = delete_with_parent_chain [OF b1 b2, of "''ln''" "''st''" "[]" "[]",
      unfolded db tb append_Nil view_at_fields, OF h3 h4]
  from A a5 have
    "\<exists>w' v' nb. EMS_delete spec_collab [PyStr ''ln'', PyTuple [PyStr ''st'']] ?wa = (Inr (), w')
       \<and> getItem (PyStr ''st'') base_fields store1 = Inr nb
       \<and> trace w' = [BaseGet, ItemGet (PyStr ''st'') base_fields, BaseSet nb, Refresh,
                      Highlight (PyStr ''st''), Open]
       \<and> db w' = store1 \<and> cm w' = Some v'
       \<and> root (top v') = nb \<and> root (bottom v') = nb \<and> root_id nb = Some ''st''
       \<and> selection (top v') = [''st''] \<and> ''st'' \<in> set (opened (top v'))
       \<and> ''ln'' \<notin> set (map node_id (nodes (top v')))
       \<and> ''ln'' \<notin> set (map node_id (nodes (bottom v')))"
    by blast
  moreover from B b5 have
    "\<exists>w' v'. EMS_delete spec_collab [PyStr ''ln'', PyTuple [PyStr ''st'']] ?wb = (Inr (), w')
       \<and> trace w' = [BaseGet, Refresh, Highlight (PyStr ''st''), Open]
       \<and> db w' = store1 \<and> cm w' = Some v'
       \<and> root (top v') = record_of base_fields it_ev
       \<and> root (bottom v') = record_of base_fields it_ev
       \<and> ''ln'' \<notin> set (map node_id (nodes (top v')))
       \<and> ''ln'' \<notin> set (map node_id (nodes (bottom v')))"
    by blast
  ultimately show ?thesis
    by (rule conjI)
qed

end
